theory Spec2Isabelle
  imports Complex_Main "HOL-Library.Product_Lexorder"
begin

section \<open>The expense approval workflow engine\<close>

text \<open>
  A shallow embedding of the approval workflow of the expense-management backend:
  the helper functions \<^verbatim>\<open>determineApprovalWorkflow\<close> and
  \<^verbatim>\<open>processApprovalWorkflow\<close> and the route handlers that call them
  (\<^verbatim>\<open>POST /api/expenses\<close>, \<^verbatim>\<open>PUT /api/expenses/:id\<close>,
  \<^verbatim>\<open>PUT /api/approvals/:id\<close>, \<^verbatim>\<open>PUT /api/approvals/:id/override\<close>).

  Conventions of the model.
  \<^item> Object ids are natural numbers; \<^verbatim>\<open>new Date()\<close> is a parameter \<open>now\<close>.
  \<^item> A JavaScript number is the rational it denotes. Amounts, thresholds and
    priorities are only compared, which is exact. The percentage of approvals is
    computed, so its division and multiplication round to the nearest double, and the
    division by zero, which gives \<^verbatim>\<open>Infinity\<close> or \<^verbatim>\<open>NaN\<close>, is written out.
  \<^item> A document of the \<^verbatim>\<open>Expense\<close> collection keeps the fields the workflow reads
    or writes, and the strings of the model are ASCII text. The schema's \<^verbatim>\<open>trim\<close>
    setters are applied where a comment is stored. The documents of the store satisfy
    the schema, so \<^verbatim>\<open>save()\<close> can only refuse what the request itself has written;
    of the fields kept here only the comment of a history entry has a validator
    (\<^verbatim>\<open>maxlength: 500\<close>).
  \<^item> An exception thrown inside a \<^verbatim>\<open>try\<close> block is the value \<open>None\<close> of the
    block's body; the \<^verbatim>\<open>catch\<close> is the case distinction on it.
\<close>

subsection \<open>Data model\<close>

type_synonym uid = nat
type_synonym cid = nat
type_synonym eid = nat
type_synonym time = nat

datatype status = Pending | Approved | Rejected | PartiallyApproved

datatype decision = DecApproved | DecRejected

datatype approval_type = Sequential | Parallel | Percentage | SpecificApprover | Hybrid | OtherType

record approverEntry =
  user :: uid
  step :: int
  isRequired :: bool

record approvalRule =
  ruleCompany :: cid
  amountThreshold :: "rat option"
  approvers :: "approverEntry list"
  approvalType :: approval_type
  percentageRequired :: "rat option"
  specificApproverCanApprove :: "uid option"
  isActive :: bool
  priority :: rat

record historyEntry =
  h_approver :: uid
  h_action :: decision
  h_comment :: string
  h_step :: nat
  h_timestamp :: time

record expense =
  employee :: uid
  company :: cid
  amountInCompanyCurrency :: rat
  status :: status
  approvalHistory :: "historyEntry list"
  currentApprover :: "uid option"
  approvalStep :: nat
  totalApprovers :: nat
  approvedBy :: "uid list"
  rejectedBy :: "uid list"
  finalApprovalDate :: "time option"
  rejectionReason :: "string option"

text \<open>
  The \<^verbatim>\<open>User\<close> model (\<^verbatim>\<open>models/User.js\<close>) is not among the sources; what the model
  keeps of a user document is taken from the routes that write and read it. The user
  routes store the id of the manager in \<^verbatim>\<open>manager\<close> (\<^verbatim>\<open>manager: manager || null\<close>)
  and the user's own flag in \<^verbatim>\<open>isManagerApprover\<close>, and they call
  \<^verbatim>\<open>populate('manager', ...)\<close> where they want the manager's document.
\<close>

record userDoc =
  manager :: "uid option"
  flaggedApprover :: bool

datatype role = Admin | Manager | Employee

text \<open>The authenticated user of a request (\<^verbatim>\<open>req.user\<close>).\<close>

record reqUser =
  userId :: uid
  userRole :: role
  isManagerApprover :: bool

text \<open>
  The collections the workflow reads. \<open>ruleQueryFails\<close> stands for a rejected
  \<^verbatim>\<open>ApprovalRule.find\<close> promise; \<^verbatim>\<open>User.findById\<close> gives \<^verbatim>\<open>null\<close> for an unknown id.
\<close>

record env =
  ruleCollection :: "approvalRule list"
  ruleQueryFails :: bool
  userCollection :: "uid \<rightharpoonup> userDoc"

type_synonym store = "eid \<rightharpoonup> expense"

datatype response = Success expense | Failure nat string

subsection \<open>Rule lookup\<close>

text \<open>
  The filter of \<^verbatim>\<open>ApprovalRule.find\<close>: the company's active rules whose
  \<^verbatim>\<open>conditions.amountThreshold\<close> is at most the amount, or does not exist.
\<close>

definition ruleMatches :: "cid \<Rightarrow> rat \<Rightarrow> approvalRule \<Rightarrow> bool" where
  "ruleMatches c amt r =
     (ruleCompany r = c \<and> isActive r \<and>
      (case amountThreshold r of None \<Rightarrow> True | Some t \<Rightarrow> t \<le> amt))"

text \<open>
  The sort \<^verbatim>\<open>{ priority: -1, 'conditions.amountThreshold': -1 }\<close> as an ascending
  sort on a key: higher priority first, then higher threshold first, a missing
  threshold after every number. Rules with equal keys keep the order of the
  collection.
\<close>

definition ruleKey :: "approvalRule \<Rightarrow> rat \<times> bool \<times> rat" where
  "ruleKey r =
     (- priority r, amountThreshold r = None,
      (case amountThreshold r of None \<Rightarrow> 0 | Some t \<Rightarrow> - t))"

definition ApprovalRule_find :: "env \<Rightarrow> cid \<Rightarrow> rat \<Rightarrow> approvalRule list option" where
  "ApprovalRule_find en c amt =
     (if ruleQueryFails en then None
      else Some (sort_key ruleKey (filter (ruleMatches c amt) (ruleCollection en))))"

text \<open>
  \<^verbatim>\<open>employee.manager.isManagerApprover\<close>. Both helpers load the employee with
  \<^verbatim>\<open>User.findById(expense.employee)\<close> and no \<^verbatim>\<open>populate\<close>, so \<^verbatim>\<open>employee.manager\<close>
  is the stored id of the manager and not the manager's document. An id has no
  property \<^verbatim>\<open>isManagerApprover\<close>: the read gives \<^verbatim>\<open>undefined\<close>, which counts as
  false, whatever the flag of the manager's own document is.
\<close>

definition isManagerApproverOfId :: "uid \<Rightarrow> bool" where
  "isManagerApproverOfId m = False"

text \<open>
  The default workflow:
  \<^verbatim>\<open>if (employee.manager && employee.manager.isManagerApprover) approvers = [...]\<close>.
\<close>

definition defaultApprovers :: "userDoc \<Rightarrow> approverEntry list" where
  "defaultApprovers emp =
     (case manager emp of
        None \<Rightarrow> []
      | Some m \<Rightarrow>
          if isManagerApproverOfId m
          then [\<lparr>user = m, step = 1, isRequired = True\<rparr>]
          else [])"

text \<open>
  The block both helpers start with: look the rules up, take \<^verbatim>\<open>rules[0]\<close> with its
  approvers sorted by step (a stable sort), or fall back to the default workflow.
  The result is the selected rule, the approver list and the approval type; \<open>None\<close>
  when the block throws (the rule query fails, or no rule matches and the employee
  document is \<^verbatim>\<open>null\<close>).
\<close>

definition resolveApprovers ::
  "env \<Rightarrow> expense \<Rightarrow> (approvalRule option \<times> approverEntry list \<times> approval_type) option" where
  "resolveApprovers en e =
     (case ApprovalRule_find en (company e) (amountInCompanyCurrency e) of
        None \<Rightarrow> None
      | Some [] \<Rightarrow>
          (case userCollection en (employee e) of
             None \<Rightarrow> None
           | Some emp \<Rightarrow> Some (None, defaultApprovers emp, Sequential))
      | Some (rule # _) \<Rightarrow>
          Some (Some rule, sort_key step (approvers rule), approvalType rule))"

subsection \<open>Workflow initialisation\<close>

definition determineApprovalWorkflow :: "env \<Rightarrow> time \<Rightarrow> expense \<Rightarrow> expense" where
  "determineApprovalWorkflow en now e =
     (case resolveApprovers en e of
        None \<Rightarrow> e
      | Some (rule, apprs, ty) \<Rightarrow>
          (let e1 = e\<lparr>totalApprovers := length apprs, approvalStep := 0,
                      approvedBy := [], rejectedBy := [], approvalHistory := []\<rparr>
           in case apprs of
                a # _ \<Rightarrow> e1\<lparr>currentApprover := Some (user a), approvalStep := 1\<rparr>
              | [] \<Rightarrow> e1\<lparr>status := Approved, finalApprovalDate := Some now\<rparr>))"

subsection \<open>Decision processing\<close>

text \<open>
  \<^verbatim>\<open>x || d\<close> on an optional number: the default replaces a missing value and zero.
\<close>

definition orDefault :: "rat option \<Rightarrow> rat \<Rightarrow> rat" where
  "orDefault x d = (case x of None \<Rightarrow> d | Some v \<Rightarrow> if v = 0 then d else v)"

text \<open>
  Double arithmetic on positive quotients of natural numbers. A double is
  \<open>m * 2 ^ k\<close> with a significand \<open>m\<close> of 53 bits; \<open>roundFrac n t\<close> is the double
  nearest to \<open>n / t\<close> (ties to the even significand), given as \<open>(m, k)\<close>. The
  exponent range of doubles is not modelled: the quotients of list lengths are far
  inside it.
\<close>

fun bitLength :: "nat \<Rightarrow> nat" where
  "bitLength n = (if n = 0 then 0 else Suc (bitLength (n div 2)))"

declare bitLength.simps [simp del]

definition pow2 :: "int \<Rightarrow> rat" where
  "pow2 k = (if 0 \<le> k then 2 ^ nat k else 1 / 2 ^ nat (- k))"

definition roundHalfEven :: "rat \<Rightarrow> int" where
  "roundHalfEven y =
     (let f = \<lfloor>y\<rfloor>; r = y - of_int f
      in if r < 1 / 2 then f else if 1 / 2 < r then f + 1 else if even f then f else f + 1)"

definition roundFrac :: "nat \<Rightarrow> nat \<Rightarrow> int \<times> int" where
  "roundFrac n t =
     (let x = (of_nat n :: rat) / of_nat t;
          d = int (bitLength n) - int (bitLength t);
          e = (if pow2 d \<le> x then d else d - 1);
          k = e - 52
      in (roundHalfEven (x / pow2 k), k))"

text \<open>
  \<^verbatim>\<open>(approvedBy.length / totalApprovers) * 100\<close> for positive operands: the quotient
  is rounded, and so is its product with 100.
\<close>

definition jsPercentage :: "nat \<Rightarrow> nat \<Rightarrow> rat" where
  "jsPercentage n t =
     (case roundFrac n t of
        (m, k) \<Rightarrow>
          (case roundFrac (nat m * 100 * (if 0 \<le> k then 2 ^ nat k else 1))
                          (if 0 \<le> k then 1 else 2 ^ nat (- k)) of
             (m2, k2) \<Rightarrow> of_int m2 * pow2 k2))"

text \<open>
  \<^verbatim>\<open>(approvedBy.length / totalApprovers) * 100 >= required\<close>. With no approvers the
  quotient is \<^verbatim>\<open>Infinity\<close> (at least every number) when somebody approved and
  \<^verbatim>\<open>NaN\<close> (at least nothing) otherwise; with no approval it is zero.
\<close>

definition percentageReached :: "nat \<Rightarrow> nat \<Rightarrow> rat \<Rightarrow> bool" where
  "percentageReached n tot required =
     (if tot = 0 then 0 < n
      else if n = 0 then required \<le> 0
      else required \<le> jsPercentage n tot)"

definition settingPercentage :: "approvalRule option \<Rightarrow> rat option" where
  "settingPercentage rule = (case rule of None \<Rightarrow> None | Some r \<Rightarrow> percentageRequired r)"

definition settingSpecific :: "approvalRule option \<Rightarrow> uid option" where
  "settingSpecific rule = (case rule of None \<Rightarrow> None | Some r \<Rightarrow> specificApproverCanApprove r)"

definition hasApproved :: "uid option \<Rightarrow> uid list \<Rightarrow> bool" where
  "hasApproved s ids = (case s of None \<Rightarrow> False | Some u \<Rightarrow> u \<in> set ids)"

definition requiredApprovers :: "approverEntry list \<Rightarrow> approverEntry list" where
  "requiredApprovers apprs = filter isRequired apprs"

definition approvedRequiredCount :: "approverEntry list \<Rightarrow> uid list \<Rightarrow> nat" where
  "approvedRequiredCount apprs ids =
     length (filter (\<lambda>i. i \<in> set (map user (requiredApprovers apprs))) ids)"

definition remainingApprovers :: "approverEntry list \<Rightarrow> expense \<Rightarrow> approverEntry list" where
  "remainingApprovers apprs e =
     filter (\<lambda>a. user a \<notin> set (approvedBy e) \<and> user a \<notin> set (rejectedBy e)) apprs"

text \<open>The \<^verbatim>\<open>switch\<close>: the verdict, and the expense as the sequential case leaves it.\<close>

definition checkApproval ::
  "approvalRule option \<Rightarrow> approverEntry list \<Rightarrow> approval_type \<Rightarrow> expense \<Rightarrow> bool \<times> expense" where
  "checkApproval rule apprs ty e =
     (case ty of
        Sequential \<Rightarrow>
          if length apprs \<le> approvalStep e then (True, e)
          else (False, e\<lparr>approvalStep := approvalStep e + 1,
                         currentApprover := Some (user (apprs ! approvalStep e))\<rparr>)
      | Parallel \<Rightarrow>
          (length (requiredApprovers apprs) \<le> approvedRequiredCount apprs (approvedBy e), e)
      | Percentage \<Rightarrow>
          (percentageReached (length (approvedBy e)) (totalApprovers e)
             (orDefault (settingPercentage rule) 100), e)
      | SpecificApprover \<Rightarrow>
          (hasApproved (settingSpecific rule) (approvedBy e), e)
      | Hybrid \<Rightarrow>
          (percentageReached (length (approvedBy e)) (totalApprovers e)
             (orDefault (settingPercentage rule) 60)
           \<or> hasApproved (settingSpecific rule) (approvedBy e), e)
      | OtherType \<Rightarrow>
          (length (requiredApprovers apprs) \<le> approvedRequiredCount apprs (approvedBy e), e))"

definition markApproved :: "time \<Rightarrow> expense \<Rightarrow> expense" where
  "markApproved now e =
     e\<lparr>status := Approved, finalApprovalDate := Some now, currentApprover := None\<rparr>"

definition markInsufficient :: "time \<Rightarrow> expense \<Rightarrow> expense" where
  "markInsufficient now e =
     e\<lparr>status := Rejected, rejectionReason := Some ''Insufficient approvals'',
       finalApprovalDate := Some now, currentApprover := None\<rparr>"

definition processApprovalWorkflow :: "env \<Rightarrow> time \<Rightarrow> expense \<Rightarrow> expense" where
  "processApprovalWorkflow en now e =
     (case resolveApprovers en e of
        None \<Rightarrow> e
      | Some (rule, apprs, ty) \<Rightarrow>
          (case checkApproval rule apprs ty e of
             (isApproved, e1) \<Rightarrow>
               if isApproved then markApproved now e1
               else if ty = Sequential \<and> approvalStep e1 \<le> length apprs then e1
               else (case remainingApprovers apprs e1 of
                       a # _ \<Rightarrow> e1\<lparr>currentApprover := Some (user a)\<rparr>
                     | [] \<Rightarrow>
                         if ty = Percentage \<or> ty = Hybrid
                         then if percentageReached (length (approvedBy e1)) (totalApprovers e1)
                                   (orDefault (settingPercentage rule) 100)
                              then markApproved now e1
                              else markInsufficient now e1
                         else e1)))"

text \<open>
  The \<^verbatim>\<open>trim\<close> setter of the schema (\<^verbatim>\<open>String.prototype.trim\<close>): white space is
  removed at both ends of a string when it is assigned to \<^verbatim>\<open>rejectionReason\<close> or to
  the \<^verbatim>\<open>comment\<close> of a history entry.
\<close>

definition isWhiteSpace :: "char \<Rightarrow> bool" where
  "isWhiteSpace c =
     (c = CHR '' '' \<or> c = CHR 0x09 \<or> c = CHR 0x0A \<or> c = CHR 0x0B \<or> c = CHR 0x0C \<or>
      c = CHR 0x0D)"

definition jsTrim :: "string \<Rightarrow> string" where
  "jsTrim s = rev (dropWhile isWhiteSpace (rev (dropWhile isWhiteSpace s)))"

text \<open>
  \<^verbatim>\<open>expense.save()\<close> validates the document and throws when a history comment is
  longer than 500 characters. The stored document \<open>old\<close> has passed the validation,
  so only the entries appended since can be refused.
\<close>

definition saveRefused :: "expense \<Rightarrow> expense \<Rightarrow> bool" where
  "saveRefused old e =
     list_ex (\<lambda>h. 500 < length (h_comment h))
       (drop (length (approvalHistory old)) (approvalHistory e))"

text \<open>\<^verbatim>\<open>comment || d\<close> on an optional string: a missing and an empty comment give \<open>d\<close>.\<close>

definition commentOr :: "string option \<Rightarrow> string \<Rightarrow> string" where
  "commentOr c d = (case c of None \<Rightarrow> d | Some s \<Rightarrow> if s = [] then d else s)"

text \<open>
  The body of the decision route once its checks have passed: the history entry, the
  push on \<^verbatim>\<open>approvedBy\<close> or \<^verbatim>\<open>rejectedBy\<close>, and the workflow step of an approval.
\<close>

definition recordDecision ::
  "env \<Rightarrow> uid \<Rightarrow> string \<Rightarrow> string option \<Rightarrow> time \<Rightarrow> expense \<Rightarrow> expense" where
  "recordDecision en u action comment now e =
     (let e1 = e\<lparr>approvalHistory := approvalHistory e @
                   [\<lparr>h_approver = u,
                     h_action = (if action = ''approved'' then DecApproved else DecRejected),
                     h_comment = jsTrim (commentOr comment []),
                     h_step = approvalStep e, h_timestamp = now\<rparr>]\<rparr>
      in if action = ''approved''
         then processApprovalWorkflow en now (e1\<lparr>approvedBy := approvedBy e1 @ [u]\<rparr>)
         else e1\<lparr>rejectedBy := rejectedBy e1 @ [u], status := Rejected,
                 rejectionReason := Some (jsTrim (commentOr comment ''No reason provided'')),
                 finalApprovalDate := Some now\<rparr>)"

subsection \<open>Middleware\<close>

definition canApprove :: "reqUser \<Rightarrow> bool" where
  "canApprove u = (userRole u = Admin \<or> (userRole u = Manager \<and> isManagerApprover u))"

definition validateApproval :: "string \<Rightarrow> string option \<Rightarrow> bool" where
  "validateApproval action comment =
     ((action = ''approved'' \<or> action = ''rejected'') \<and>
      (case comment of None \<Rightarrow> True | Some c \<Rightarrow> length c \<le> 500))"

subsection \<open>Routes\<close>

text \<open>\<^verbatim>\<open>PUT /api/approvals/:id\<close>: approve or reject.\<close>

definition approvals_put ::
  "env \<Rightarrow> store \<Rightarrow> reqUser \<Rightarrow> eid \<Rightarrow> string \<Rightarrow> string option \<Rightarrow> time \<Rightarrow> response \<times> store" where
  "approvals_put en s u i action comment now =
     (if \<not> canApprove u
      then (Failure 403 ''You do not have permission to approve expenses.'', s)
      else if \<not> validateApproval action comment
      then (Failure 400 ''Validation failed'', s)
      else case s i of
        None \<Rightarrow> (Failure 404 ''Expense not found'', s)
      | Some e \<Rightarrow>
          (case currentApprover e of
             None \<Rightarrow> (Failure 500 ''Server error'', s)
           | Some ca \<Rightarrow>
               if ca \<noteq> userId u
               then (Failure 403 ''You are not the current approver for this expense'', s)
               else if status e \<noteq> Pending
               then (Failure 400 ''Expense is no longer pending approval'', s)
               else (let e' = recordDecision en (userId u) action comment now e
                     in if saveRefused e e' then (Failure 500 ''Server error'', s)
                        else (Success e', s(i \<mapsto> e')))))"

text \<open>\<^verbatim>\<open>PUT /api/approvals/:id/override\<close>: the administrator's override.\<close>

definition overrideExpense :: "uid \<Rightarrow> string \<Rightarrow> string option \<Rightarrow> time \<Rightarrow> expense \<Rightarrow> expense" where
  "overrideExpense u action comment now e =
     (let e1 = e\<lparr>approvalHistory := approvalHistory e @
                   [\<lparr>h_approver = u,
                     h_action = (if action = ''approved'' then DecApproved else DecRejected),
                     h_comment =
                       jsTrim (''[ADMIN OVERRIDE] '' @ commentOr comment ''No reason provided''),
                     h_step = approvalStep e + 1, h_timestamp = now\<rparr>],
                 status := (if action = ''approved'' then Approved else Rejected),
                 finalApprovalDate := Some now,
                 currentApprover := None\<rparr>
      in if action = ''rejected''
         then e1\<lparr>rejectionReason :=
                   Some (jsTrim (commentOr comment ''Rejected by admin override''))\<rparr>
         else e1)"

definition approvals_override ::
  "store \<Rightarrow> reqUser \<Rightarrow> eid \<Rightarrow> string \<Rightarrow> string option \<Rightarrow> time \<Rightarrow> response \<times> store" where
  "approvals_override s u i action comment now =
     (if userRole u \<noteq> Admin
      then (Failure 403 ''Only admin can override approvals'', s)
      else case s i of
        None \<Rightarrow> (Failure 404 ''Expense not found'', s)
      | Some e \<Rightarrow>
          (let e' = overrideExpense (userId u) action comment now e
           in if saveRefused e e' then (Failure 500 ''Server error'', s)
              else (Success e', s(i \<mapsto> e'))))"

text \<open>
  \<^verbatim>\<open>POST /api/expenses\<close> from \<^verbatim>\<open>Expense.create\<close> on. The checks before it (company
  lookup, currency conversion, the company's limit) can only refuse the request; the
  converted amount is a parameter, and so is the id the store gives the new document.
\<close>

definition Expense_create :: "uid \<Rightarrow> cid \<Rightarrow> rat \<Rightarrow> expense" where
  "Expense_create emp c amt =
     \<lparr>employee = emp, company = c, amountInCompanyCurrency = amt, status = Pending,
      approvalHistory = [], currentApprover = None, approvalStep = 0, totalApprovers = 0,
      approvedBy = [], rejectedBy = [], finalApprovalDate = None, rejectionReason = None\<rparr>"

definition expenses_post ::
  "env \<Rightarrow> store \<Rightarrow> uid \<Rightarrow> cid \<Rightarrow> eid \<Rightarrow> rat \<Rightarrow> time \<Rightarrow> response \<times> store" where
  "expenses_post en s emp c i amt now =
     (let e' = determineApprovalWorkflow en now (Expense_create emp c amt)
      in (Success e', s(i \<mapsto> e')))"

text \<open>
  \<^verbatim>\<open>PUT /api/expenses/:id\<close>: edit while pending, then initialise the workflow again.
  The converted amount is a parameter, as above.
\<close>

definition expenses_put ::
  "env \<Rightarrow> store \<Rightarrow> reqUser \<Rightarrow> eid \<Rightarrow> rat \<Rightarrow> time \<Rightarrow> response \<times> store" where
  "expenses_put en s u i amt now =
     (case s i of
        None \<Rightarrow> (Failure 404 ''Expense not found'', s)
      | Some e \<Rightarrow>
          if userRole u = Employee \<and> employee e \<noteq> userId u
          then (Failure 403 ''Access denied'', s)
          else if status e \<noteq> Pending
          then (Failure 400 ''Cannot update expense that is not pending'', s)
          else (let e' = determineApprovalWorkflow en now (e\<lparr>amountInCompanyCurrency := amt\<rparr>)
                in (Success e', s(i \<mapsto> e'))))"

subsection \<open>Reachable stores\<close>

text \<open>
  The stores the four routes produce from the empty one. Every request sees an
  environment that \<open>E\<close> admits: rules and users may change between requests
  (\<open>reachable\<close>), or stay the same throughout (\<open>reachable_with (\<lambda>x. x = en)\<close>).
\<close>

inductive reachable_with :: "(env \<Rightarrow> bool) \<Rightarrow> store \<Rightarrow> bool"
  for E :: "env \<Rightarrow> bool" where
  r_empty: "reachable_with E Map.empty"
| r_post: "reachable_with E s \<Longrightarrow> E en \<Longrightarrow> s i = None \<Longrightarrow>
     reachable_with E (snd (expenses_post en s emp c i amt now))"
| r_put: "reachable_with E s \<Longrightarrow> E en \<Longrightarrow>
     reachable_with E (snd (expenses_put en s u i amt now))"
| r_decide: "reachable_with E s \<Longrightarrow> E en \<Longrightarrow>
     reachable_with E (snd (approvals_put en s u i action comment now))"
| r_override: "reachable_with E s \<Longrightarrow>
     reachable_with E (snd (approvals_override s u i action comment now))"

definition reachable :: "store \<Rightarrow> bool" where
  "reachable = reachable_with (\<lambda>en. True)"

subsection \<open>Properties the claims speak about\<close>

text \<open>
  The order the rule lookup is said to produce, in the words of the specification:
  priority descending, then amount threshold descending; a rule without a threshold
  comes after the rules of its priority that have one.
\<close>

definition precedes :: "approvalRule \<Rightarrow> approvalRule \<Rightarrow> bool" where
  "precedes r r' =
     (priority r' < priority r \<or>
      (priority r' = priority r \<and>
       (case amountThreshold r' of
          None \<Rightarrow> True
        | Some t' \<Rightarrow> (case amountThreshold r of None \<Rightarrow> False | Some t \<Rightarrow> t' \<le> t))))"

definition dateMatchesStatus :: "expense \<Rightarrow> bool" where
  "dateMatchesStatus e =
     ((finalApprovalDate e \<noteq> None) = (status e = Approved \<or> status e = Rejected))"

definition allExpenses :: "(expense \<Rightarrow> bool) \<Rightarrow> store \<Rightarrow> bool" where
  "allExpenses P s = (\<forall>i e. s i = Some e \<longrightarrow> P e)"





subsection \<open>Example data\<close>

definition adminUser :: reqUser where
  "adminUser = \<lparr>userId = 9, userRole = Admin, isManagerApprover = False\<rparr>"

definition approverA :: reqUser where
  "approverA = \<lparr>userId = 1, userRole = Manager, isManagerApprover = True\<rparr>"

definition approverB :: reqUser where
  "approverB = \<lparr>userId = 2, userRole = Manager, isManagerApprover = True\<rparr>"

text \<open>
  Employee 7 reports to user 1, whose own document carries the approver flag;
  employee 8 has no manager.
\<close>

definition staff :: "uid \<rightharpoonup> userDoc" where
  "staff = [7 \<mapsto> \<lparr>manager = Some 1, flaggedApprover = False\<rparr>,
            8 \<mapsto> \<lparr>manager = None, flaggedApprover = False\<rparr>,
            1 \<mapsto> \<lparr>manager = None, flaggedApprover = True\<rparr>]"

definition noRules :: env where
  "noRules = \<lparr>ruleCollection = [], ruleQueryFails = False, userCollection = staff\<rparr>"

definition rulesDown :: env where
  "rulesDown = \<lparr>ruleCollection = [], ruleQueryFails = True, userCollection = staff\<rparr>"

definition autoApproved :: expense where
  "autoApproved = (Expense_create 8 1 50)\<lparr>status := Approved, finalApprovalDate := Some 3\<rparr>"

definition pendingForA :: expense where
  "pendingForA = (Expense_create 7 1 50)\<lparr>currentApprover := Some 1, approvalStep := 1,
                    totalApprovers := 1\<rparr>"

definition ruleLow :: approvalRule where
  "ruleLow = \<lparr>ruleCompany = 1, amountThreshold = Some 0,
      approvers = [\<lparr>user = 1, step = 1, isRequired = True\<rparr>],
      approvalType = Sequential, percentageRequired = Some 100,
      specificApproverCanApprove = None, isActive = True, priority = 0\<rparr>"

definition ruleHigh :: approvalRule where
  "ruleHigh = \<lparr>ruleCompany = 1, amountThreshold = Some 100,
      approvers = [\<lparr>user = 2, step = 2, isRequired = True\<rparr>, \<lparr>user = 1, step = 1, isRequired = True\<rparr>],
      approvalType = Sequential, percentageRequired = Some 100,
      specificApproverCanApprove = None, isActive = True, priority = 5\<rparr>"

definition ruleHuge :: approvalRule where
  "ruleHuge = \<lparr>ruleCompany = 1, amountThreshold = Some 1000,
      approvers = [\<lparr>user = 9, step = 1, isRequired = True\<rparr>],
      approvalType = Sequential, percentageRequired = Some 100,
      specificApproverCanApprove = None, isActive = True, priority = 9\<rparr>"

definition threeRules :: env where
  "threeRules = \<lparr>ruleCollection = [ruleLow, ruleHuge, ruleHigh], ruleQueryFails = False,
                  userCollection = staff\<rparr>"

text \<open>
  Rules over the approvers 1 and 2 of company 1, one per policy the examples need, and
  an expense of employee 7 as initialisation leaves it under each of them: approver 1
  is current, at step 1 of 2.
\<close>

definition twoApprovers :: "approverEntry list" where
  "twoApprovers = [\<lparr>user = 1, step = 1, isRequired = True\<rparr>,
                   \<lparr>user = 2, step = 2, isRequired = True\<rparr>]"

definition parallelRule :: approvalRule where
  "parallelRule = \<lparr>ruleCompany = 1, amountThreshold = Some 0, approvers = twoApprovers,
      approvalType = Parallel, percentageRequired = Some 100,
      specificApproverCanApprove = None, isActive = True, priority = 0\<rparr>"

text \<open>A parallel rule that lists approver 1 at two steps.\<close>

definition twiceRule :: approvalRule where
  "twiceRule = \<lparr>ruleCompany = 1, amountThreshold = Some 0,
      approvers = [\<lparr>user = 1, step = 1, isRequired = True\<rparr>,
                   \<lparr>user = 1, step = 2, isRequired = True\<rparr>],
      approvalType = Parallel, percentageRequired = Some 100,
      specificApproverCanApprove = None, isActive = True, priority = 0\<rparr>"

text \<open>A percentage rule whose required percentage is zero.\<close>

definition zeroPercentRule :: approvalRule where
  "zeroPercentRule = \<lparr>ruleCompany = 1, amountThreshold = Some 0, approvers = twoApprovers,
      approvalType = Percentage, percentageRequired = Some 0,
      specificApproverCanApprove = None, isActive = True, priority = 0\<rparr>"


definition oneRule :: "approvalRule \<Rightarrow> env" where
  "oneRule r = \<lparr>ruleCollection = [r], ruleQueryFails = False, userCollection = staff\<rparr>"

definition pendingOfTwo :: expense where
  "pendingOfTwo = (Expense_create 7 1 50)\<lparr>currentApprover := Some 1, approvalStep := 1,
                     totalApprovers := 2\<rparr>"





definition onceApproved :: expense where
  "onceApproved = pendingOfTwo\<lparr>approvalHistory :=
       [\<lparr>h_approver = 1, h_action = DecApproved, h_comment = [], h_step = 1, h_timestamp = 4\<rparr>],
     approvedBy := [1], currentApprover := Some 2\<rparr>"



definition stuckPending :: expense where
  "stuckPending = pendingOfTwo\<lparr>approvalHistory :=
       [\<lparr>h_approver = 1, h_action = DecApproved, h_comment = [], h_step = 1, h_timestamp = 4\<rparr>],
     approvedBy := [1]\<rparr>"









section \<open>Shared lemmas\<close>

lemma resolveApprovers_cong:
  "company e' = company e \<Longrightarrow> amountInCompanyCurrency e' = amountInCompanyCurrency e \<Longrightarrow>
   employee e' = employee e \<Longrightarrow> resolveApprovers en e' = resolveApprovers en e"
  by (simp add: resolveApprovers_def split: option.splits list.splits)

lemma checkApproval_fields:
  "status (snd (checkApproval rule apprs ty e)) = status e"
  "finalApprovalDate (snd (checkApproval rule apprs ty e)) = finalApprovalDate e"
  "approvedBy (snd (checkApproval rule apprs ty e)) = approvedBy e"
  "rejectedBy (snd (checkApproval rule apprs ty e)) = rejectedBy e"
  "approvalHistory (snd (checkApproval rule apprs ty e)) = approvalHistory e"
  by (simp_all add: checkApproval_def split: approval_type.splits)

lemma process_cases:
  "processApprovalWorkflow en now e = e \<or>
   (\<exists>rule apprs ty e1. e1 = snd (checkApproval rule apprs ty e) \<and>
      (processApprovalWorkflow en now e = markApproved now e1 \<or>
       processApprovalWorkflow en now e = markInsufficient now e1 \<or>
       processApprovalWorkflow en now e = e1 \<or>
       (\<exists>a. processApprovalWorkflow en now e = e1\<lparr>currentApprover := Some a\<rparr>)))"
proof (cases "resolveApprovers en e")
  case None
  then show ?thesis by (simp add: processApprovalWorkflow_def)
next
  case (Some t)
  obtain rule apprs ty where t: "t = (rule, apprs, ty)" by (cases t) auto
  obtain b e1 where c: "checkApproval rule apprs ty e = (b, e1)"
    by (cases "checkApproval rule apprs ty e") auto
  then have e1: "e1 = snd (checkApproval rule apprs ty e)" by simp
  have "processApprovalWorkflow en now e = markApproved now e1 \<or>
       processApprovalWorkflow en now e = markInsufficient now e1 \<or>
       processApprovalWorkflow en now e = e1 \<or>
       (\<exists>a. processApprovalWorkflow en now e = e1\<lparr>currentApprover := Some a\<rparr>)"
    using Some t c by (auto simp: processApprovalWorkflow_def split: list.splits)
  with e1 show ?thesis by blast
qed

lemma process_lists:
  "approvedBy (processApprovalWorkflow en now e) = approvedBy e \<and>
   rejectedBy (processApprovalWorkflow en now e) = rejectedBy e"
  using process_cases [of en now e]
  by (auto simp: checkApproval_fields markApproved_def markInsufficient_def)

lemma process_history:
  "approvalHistory (processApprovalWorkflow en now e) = approvalHistory e"
  using process_cases [of en now e]
  by (auto simp: checkApproval_fields markApproved_def markInsufficient_def)

lemma length_jsTrim: "length (jsTrim s) \<le> length s"
proof -
  have "length (jsTrim s) \<le> length (dropWhile isWhiteSpace s)"
    unfolding jsTrim_def using length_dropWhile_le [of isWhiteSpace "rev (dropWhile isWhiteSpace s)"]
    by simp
  also have "\<dots> \<le> length s" by (rule length_dropWhile_le)
  finally show ?thesis .
qed

lemma jsTrim_Nil: "jsTrim [] = []"
  by (simp add: jsTrim_def)


lemma approval_recorded:
  "recordDecision en u ''approved'' comment now e =
     processApprovalWorkflow en now
       (e\<lparr>approvalHistory := approvalHistory e @
            [\<lparr>h_approver = u, h_action = DecApproved,
              h_comment = jsTrim (case comment of None \<Rightarrow> [] | Some c \<Rightarrow> c),
              h_step = approvalStep e, h_timestamp = now\<rparr>],
          approvedBy := approvedBy e @ [u]\<rparr>)"
  by (simp add: recordDecision_def Let_def commentOr_def jsTrim_Nil split: option.splits)

lemma recordDecision_history:
  "approvalHistory (recordDecision en u action comment now e) =
     approvalHistory e @
       [\<lparr>h_approver = u,
         h_action = (if action = ''approved'' then DecApproved else DecRejected),
         h_comment = jsTrim (commentOr comment []),
         h_step = approvalStep e, h_timestamp = now\<rparr>]"
  by (simp add: recordDecision_def Let_def process_history)

lemma decision_saved:
  assumes "validateApproval action comment"
  shows "\<not> saveRefused e (recordDecision en u action comment now e)"
proof -
  have "length (commentOr comment []) \<le> 500"
    using assms by (simp add: validateApproval_def commentOr_def split: option.splits)
  with length_jsTrim [of "commentOr comment []"]
  have "length (jsTrim (commentOr comment [])) \<le> 500" by simp
  then show ?thesis by (simp add: saveRefused_def recordDecision_history)
qed

lemma approvals_put_accepted:
  assumes "canApprove u" and "validateApproval action comment" and "s i = Some e"
    and "currentApprover e = Some (userId u)" and "status e = Pending"
  shows "approvals_put en s u i action comment now =
           (Success (recordDecision en (userId u) action comment now e),
            s(i \<mapsto> recordDecision en (userId u) action comment now e))"
  using assms decision_saved [OF assms(2), of e en "userId u" now]
  by (simp add: approvals_put_def Let_def)

lemma no_matching_rule:
  assumes "\<not> ruleQueryFails en" and "\<forall>r \<in> set (ruleCollection en). \<not> ruleMatches c amt r"
  shows "ApprovalRule_find en c amt = Some []"
proof -
  from assms(2) have "filter (ruleMatches c amt) (ruleCollection en) = []"
    by (simp add: filter_empty_conv)
  with assms(1) show ?thesis by (simp add: ApprovalRule_find_def)
qed

lemma defaultApprovers_empty: "defaultApprovers emp = []"
  by (simp add: defaultApprovers_def isManagerApproverOfId_def split: option.splits)

lemma canApprove_examples: "canApprove adminUser" "canApprove approverA" "canApprove approverB"
  by (simp_all add: canApprove_def adminUser_def approverA_def approverB_def)

lemma validate_examples:
  "validateApproval ''approved'' None" "validateApproval ''rejected'' None"
  by (simp_all add: validateApproval_def)

lemma pendingOfTwo_fields:
  "company pendingOfTwo = 1" "amountInCompanyCurrency pendingOfTwo = 50"
  "employee pendingOfTwo = 7" "status pendingOfTwo = Pending"
  "currentApprover pendingOfTwo = Some 1" "approvalStep pendingOfTwo = 1"
  "totalApprovers pendingOfTwo = 2" "approvedBy pendingOfTwo = []"
  "rejectedBy pendingOfTwo = []" "approvalHistory pendingOfTwo = []"
  "finalApprovalDate pendingOfTwo = None" "rejectionReason pendingOfTwo = None"
  by (simp_all add: pendingOfTwo_def Expense_create_def)

lemma onceApproved_fields:
  "company onceApproved = 1" "amountInCompanyCurrency onceApproved = 50"
  "status onceApproved = Pending" "currentApprover onceApproved = Some 2"
  "approvalStep onceApproved = 1" "approvedBy onceApproved = [1]"
  "rejectedBy onceApproved = []"
  by (simp_all add: onceApproved_def pendingOfTwo_fields)

lemma resolve_oneRule:
  assumes "ruleMatches (company e) (amountInCompanyCurrency e) r"
  shows "resolveApprovers (oneRule r) e =
           Some (Some r, sort_key step (approvers r), approvalType r)"
  using assms by (simp add: resolveApprovers_def ApprovalRule_find_def oneRule_def)

lemma sort_twoApprovers: "sort_key step twoApprovers = twoApprovers"
  by (simp add: twoApprovers_def)

lemma determine_two:
  assumes "resolveApprovers en (Expense_create 7 1 50) = Some (rule, twoApprovers, ty)"
  shows "determineApprovalWorkflow en now (Expense_create 7 1 50) = pendingOfTwo"
  unfolding determineApprovalWorkflow_def assms
  by (simp add: Let_def twoApprovers_def pendingOfTwo_def Expense_create_def)

lemma allExpenses_update:
  "allExpenses P s \<Longrightarrow> P e \<Longrightarrow> allExpenses P (s(i \<mapsto> e))"
  by (simp add: allExpenses_def)

lemma allExpenses_lookup: "allExpenses P s \<Longrightarrow> s i = Some e \<Longrightarrow> P e"
  by (simp add: allExpenses_def)

section \<open>The decision route\<close>

text \<open>
  Claim C10. A decision request for an expense whose \<open>currentApprover\<close> is null ends in
  the generic server error (status 500, "Server error") whatever the status of the
  expense is: the current approver is dereferenced before the pending check, so
  neither the not-current-approver error nor the not-pending error can be the answer,
  and nothing is saved.
\<close>

theorem decision_without_current_approver:
  assumes "canApprove u" and "validateApproval action comment"
    and "s i = Some e" and "currentApprover e = None"
  shows "approvals_put en s u i action comment now = (Failure 500 ''Server error'', s)"
  using assms by (simp add: approvals_put_def)

theorem decision_without_current_approver_witness:
  "canApprove adminUser \<and> validateApproval ''approved'' None \<and>
   [5::eid \<mapsto> autoApproved] 5 = Some autoApproved \<and> currentApprover autoApproved = None \<and>
   status autoApproved = Approved \<and>
   approvals_put noRules [5::eid \<mapsto> autoApproved] adminUser 5 ''approved'' None 7 =
     (Failure 500 ''Server error'', [5::eid \<mapsto> autoApproved])"
proof -
  have 1: "canApprove adminUser" by (rule canApprove_examples)
  have 2: "validateApproval ''approved'' None" by (simp add: validateApproval_def)
  have 3: "[5::eid \<mapsto> autoApproved] 5 = Some autoApproved" by simp
  have 4: "currentApprover autoApproved = None" by (simp add: autoApproved_def Expense_create_def)
  have 5: "status autoApproved = Approved" by (simp add: autoApproved_def Expense_create_def)
  from decision_without_current_approver
         [where u = adminUser and s = "[5::eid \<mapsto> autoApproved]" and i = 5
            and e = autoApproved and en = noRules and now = 7, OF 1 2 3 4]
    1 2 3 4 5
  show ?thesis by simp
qed






section \<open>The override route\<close>








section \<open>Workflow initialisation without a rule\<close>

text \<open>
  Without a matching rule the default approver list is empty, with or without a
  manager, and the expense of an existing employee is approved at once.
\<close>

lemma no_rule_auto_approves:
  assumes "\<not> ruleQueryFails en"
    and "\<forall>r \<in> set (ruleCollection en). \<not> ruleMatches (company e) (amountInCompanyCurrency e) r"
    and "userCollection en (employee e) = Some emp"
  shows "determineApprovalWorkflow en now e =
           e\<lparr>totalApprovers := 0, approvalStep := 0, approvedBy := [], rejectedBy := [],
             approvalHistory := [], status := Approved, finalApprovalDate := Some now\<rparr>"
proof -
  from no_matching_rule [OF assms(1,2)] assms(3)
  have r: "resolveApprovers en e = Some (None, [], Sequential)"
    by (simp add: resolveApprovers_def defaultApprovers_empty)
  show ?thesis by (simp add: r determineApprovalWorkflow_def Let_def)
qed

text \<open>
  Claim C2 at an employee whose manager is flagged as an approver. No rule exists,
  employee 7 has manager 1, and the document of user 1 carries the approver flag. The
  claim has the expense offered to user 1 with \<open>totalApprovers = 1\<close>; the code reads
  the flag off the manager's id, finds none, and approves the expense at once with
  \<open>totalApprovers = 0\<close> and no current approver.
\<close>

theorem flagged_manager_not_offered:
  "ruleCollection noRules = [] \<and>
   userCollection noRules 7 = Some \<lparr>manager = Some 1, flaggedApprover = False\<rparr> \<and>
   userCollection noRules 1 = Some \<lparr>manager = None, flaggedApprover = True\<rparr> \<and>
   determineApprovalWorkflow noRules 3 (Expense_create 7 1 50) =
     (Expense_create 7 1 50)\<lparr>status := Approved, finalApprovalDate := Some 3\<rparr> \<and>
   totalApprovers (determineApprovalWorkflow noRules 3 (Expense_create 7 1 50)) = 0 \<and>
   currentApprover (determineApprovalWorkflow noRules 3 (Expense_create 7 1 50)) = None"
proof -
  have 1: "\<not> ruleQueryFails noRules" by (simp add: noRules_def)
  have 2: "\<forall>r \<in> set (ruleCollection noRules). \<not> ruleMatches c amt r" for c amt
    by (simp add: noRules_def)
  have 7: "userCollection noRules (employee (Expense_create 7 1 50)) =
             Some \<lparr>manager = Some 1, flaggedApprover = False\<rparr>"
    by (simp add: noRules_def staff_def Expense_create_def)
  have d: "determineApprovalWorkflow noRules 3 (Expense_create 7 1 50) =
     (Expense_create 7 1 50)\<lparr>status := Approved, finalApprovalDate := Some 3\<rparr>"
    unfolding no_rule_auto_approves [OF 1 2 7] by (simp add: Expense_create_def)
  have u: "ruleCollection noRules = []"
    "userCollection noRules 7 = Some \<lparr>manager = Some 1, flaggedApprover = False\<rparr>"
    "userCollection noRules 1 = Some \<lparr>manager = None, flaggedApprover = True\<rparr>"
    by (simp_all add: noRules_def staff_def)
  from d u show ?thesis by (simp add: Expense_create_def)
qed

section \<open>A failing re-evaluation\<close>

text \<open>
  Claim C3, as the code has it. When the re-evaluation of the workflow throws during an
  approval (the rule lookup fails, or no rule matches and the employee document is
  missing), the helper swallows the exception and the route saves the expense all the
  same: the request succeeds, and the saved expense has the new history entry and the
  approver appended to \<open>approvedBy\<close>. Status, current approver and approval step keep
  their values.
\<close>

theorem failed_evaluation_is_saved:
  assumes "canApprove u" and "validateApproval ''approved'' comment" and "s i = Some e"
    and "currentApprover e = Some (userId u)" and "status e = Pending"
    and "resolveApprovers en e = None"
  shows "\<exists>e'. approvals_put en s u i ''approved'' comment now = (Success e', s(i \<mapsto> e')) \<and>
     e' = e\<lparr>approvalHistory := approvalHistory e @
               [\<lparr>h_approver = userId u, h_action = DecApproved,
                 h_comment = jsTrim (case comment of None \<Rightarrow> [] | Some c \<Rightarrow> c),
                 h_step = approvalStep e, h_timestamp = now\<rparr>],
             approvedBy := approvedBy e @ [userId u]\<rparr>"
proof -
  let ?e2 = "e\<lparr>approvalHistory := approvalHistory e @
               [\<lparr>h_approver = userId u, h_action = DecApproved,
                 h_comment = jsTrim (case comment of None \<Rightarrow> [] | Some c \<Rightarrow> c),
                 h_step = approvalStep e, h_timestamp = now\<rparr>],
             approvedBy := approvedBy e @ [userId u]\<rparr>"
  have "resolveApprovers en ?e2 = None"
    using assms(6) by (simp add: resolveApprovers_cong [of ?e2 e])
  then have "processApprovalWorkflow en now ?e2 = ?e2"
    by (simp add: processApprovalWorkflow_def)
  then have "recordDecision en (userId u) ''approved'' comment now e = ?e2"
    by (simp only: approval_recorded)
  with approvals_put_accepted [where s = s and i = i and en = en and now = now, OF assms(1-5)]
  show ?thesis by simp
qed

lemma rulesDown_throws: "resolveApprovers rulesDown e = None"
  by (simp add: resolveApprovers_def ApprovalRule_find_def rulesDown_def)

theorem failed_evaluation_is_saved_witness:
  "canApprove approverA \<and> validateApproval ''approved'' None \<and>
   currentApprover pendingForA = Some (userId approverA) \<and> status pendingForA = Pending \<and>
   resolveApprovers rulesDown pendingForA = None \<and>
   (\<exists>e'. approvals_put rulesDown [4::eid \<mapsto> pendingForA] approverA 4 ''approved'' None 6 =
            (Success e', [4::eid \<mapsto> e']) \<and>
      approvedBy e' = [1] \<and> length (approvalHistory e') = 1 \<and> status e' = Pending \<and>
      currentApprover e' = Some 1 \<and> approvalStep e' = 1)"
proof -
  have 1: "canApprove approverA" by (rule canApprove_examples)
  have 2: "validateApproval ''approved'' None" by (simp add: validateApproval_def)
  have 3: "[4::eid \<mapsto> pendingForA] 4 = Some pendingForA" by simp
  have 4: "currentApprover pendingForA = Some (userId approverA)"
    by (simp add: pendingForA_def approverA_def)
  have 5: "status pendingForA = Pending" by (simp add: pendingForA_def Expense_create_def)
  have 6: "resolveApprovers rulesDown pendingForA = None" by (rule rulesDown_throws)
  from failed_evaluation_is_saved
         [where s = "[4::eid \<mapsto> pendingForA]" and i = 4 and now = 6, OF 1 2 3 4 5 6]
  obtain e' where
    r: "approvals_put rulesDown [4::eid \<mapsto> pendingForA] approverA 4 ''approved'' None 6 =
          (Success e', [4::eid \<mapsto> pendingForA, 4 \<mapsto> e'])"
    and e': "e' = pendingForA\<lparr>approvalHistory := approvalHistory pendingForA @
               [\<lparr>h_approver = userId approverA, h_action = DecApproved,
                 h_comment = jsTrim (case None of None \<Rightarrow> [] | Some c \<Rightarrow> c),
                 h_step = approvalStep pendingForA, h_timestamp = 6\<rparr>],
             approvedBy := approvedBy pendingForA @ [userId approverA]\<rparr>"
    by blast
  from e' have "approvedBy e' = [1] \<and> length (approvalHistory e') = 1 \<and> status e' = Pending \<and>
      currentApprover e' = Some 1 \<and> approvalStep e' = 1"
    by (simp add: pendingForA_def Expense_create_def approverA_def jsTrim_Nil)
  with r 1 2 4 5 6 show ?thesis by auto
qed

text \<open>
  The claim as stated fails: with the rule lookup down, the approval of approver 1 is
  answered with success and the saved expense differs from the one before the request
  (approver 1 is now in \<open>approvedBy\<close>, the history has one entry).
\<close>

theorem failed_evaluation_counterexample:
  "resolveApprovers rulesDown pendingForA = None \<and>
   approvedBy pendingForA = [] \<and> approvalHistory pendingForA = [] \<and>
   snd (approvals_put rulesDown [4::eid \<mapsto> pendingForA] approverA 4 ''approved'' None 6) 4 =
     Some (pendingForA\<lparr>approvalHistory :=
             [\<lparr>h_approver = 1, h_action = DecApproved, h_comment = [], h_step = 1,
               h_timestamp = 6\<rparr>],
           approvedBy := [1]\<rparr>) \<and>
   snd (approvals_put rulesDown [4::eid \<mapsto> pendingForA] approverA 4 ''approved'' None 6) 4 \<noteq>
     [4::eid \<mapsto> pendingForA] 4"
proof -
  have p: "processApprovalWorkflow rulesDown now e = e" for now e
    by (simp add: processApprovalWorkflow_def rulesDown_throws)
  have v: "validateApproval ''approved'' None" by (simp add: validateApproval_def)
  have "snd (approvals_put rulesDown [4::eid \<mapsto> pendingForA] approverA 4 ''approved'' None 6) 4 =
     Some (pendingForA\<lparr>approvalHistory :=
             [\<lparr>h_approver = 1, h_action = DecApproved, h_comment = [], h_step = 1,
               h_timestamp = 6\<rparr>],
           approvedBy := [1]\<rparr>)"
    by (simp add: approvals_put_def canApprove_examples v recordDecision_def p Let_def
        commentOr_def pendingForA_def Expense_create_def canApprove_def approverA_def
        jsTrim_Nil saveRefused_def)
  moreover have "pendingForA\<lparr>approvalHistory :=
             [\<lparr>h_approver = 1, h_action = DecApproved, h_comment = [], h_step = 1,
               h_timestamp = 6\<rparr>],
           approvedBy := [1]\<rparr> \<noteq> pendingForA"
    by (simp add: pendingForA_def Expense_create_def)
  moreover have "approvedBy pendingForA = [] \<and> approvalHistory pendingForA = []"
    by (simp add: pendingForA_def Expense_create_def)
  ultimately show ?thesis by (simp add: rulesDown_throws)
qed

section \<open>Rule resolution\<close>

lemma ruleKey_le: "ruleKey r \<le> ruleKey r' \<longleftrightarrow> precedes r r'"
  by (auto simp: ruleKey_def precedes_def split: option.splits)

lemma sorted_ruleKey: "sorted (map ruleKey rs) \<longleftrightarrow> sorted_wrt precedes rs"
  by (induction rs) (auto simp: ruleKey_le)

lemma ruleMatches_iff:
  "ruleMatches c amt r \<longleftrightarrow>
     ruleCompany r = c \<and> isActive r \<and> (\<forall>t. amountThreshold r = Some t \<longrightarrow> t \<le> amt)"
  by (auto simp: ruleMatches_def split: option.splits)

text \<open>
  Claim C6. When the rule query answers, its result holds exactly the rules of the
  expense's company that are active and whose amount threshold is absent or at most the
  amount in company currency; it is ordered by priority descending, then amount
  threshold descending; the workflow takes the first rule, which precedes every other
  candidate. When no rule matches, no rule is selected and the workflow continues with
  the default approvers (of an existing employee) instead of failing.
\<close>

theorem rule_resolution:
  assumes "\<not> ruleQueryFails en"
  shows "\<exists>rs. ApprovalRule_find en (company e) (amountInCompanyCurrency e) = Some rs \<and>
     set rs = {r \<in> set (ruleCollection en).
                 ruleCompany r = company e \<and> isActive r \<and>
                 (\<forall>t. amountThreshold r = Some t \<longrightarrow> t \<le> amountInCompanyCurrency e)} \<and>
     sorted_wrt precedes rs \<and>
     (\<forall>r rest. rs = r # rest \<longrightarrow>
        resolveApprovers en e = Some (Some r, sort_key step (approvers r), approvalType r) \<and>
        (\<forall>r' \<in> set rs. precedes r r')) \<and>
     (rs = [] \<longrightarrow>
        (\<forall>emp. userCollection en (employee e) = Some emp \<longrightarrow>
           resolveApprovers en e = Some (None, defaultApprovers emp, Sequential)))"
proof -
  let ?rs = "sort_key ruleKey (filter (ruleMatches (company e) (amountInCompanyCurrency e))
               (ruleCollection en))"
  have f: "ApprovalRule_find en (company e) (amountInCompanyCurrency e) = Some ?rs"
    using assms by (simp add: ApprovalRule_find_def)
  have s: "set ?rs = {r \<in> set (ruleCollection en).
                 ruleCompany r = company e \<and> isActive r \<and>
                 (\<forall>t. amountThreshold r = Some t \<longrightarrow> t \<le> amountInCompanyCurrency e)}"
    by (auto simp: ruleMatches_iff)
  have o: "sorted_wrt precedes ?rs"
    by (simp add: sorted_ruleKey [symmetric])
  have h: "\<forall>r rest. ?rs = r # rest \<longrightarrow>
        resolveApprovers en e = Some (Some r, sort_key step (approvers r), approvalType r) \<and>
        (\<forall>r' \<in> set ?rs. precedes r r')"
  proof (intro allI impI)
    fix r rest assume eq: "?rs = r # rest"
    have "precedes r r" by (simp add: precedes_def split: option.splits)
    moreover from o eq have "\<forall>r' \<in> set rest. precedes r r'" by simp
    ultimately have "\<forall>r' \<in> set ?rs. precedes r r'" using eq by simp
    moreover from f eq
    have "resolveApprovers en e = Some (Some r, sort_key step (approvers r), approvalType r)"
      by (simp add: resolveApprovers_def)
    ultimately show "resolveApprovers en e =
        Some (Some r, sort_key step (approvers r), approvalType r) \<and>
        (\<forall>r' \<in> set ?rs. precedes r r')" by simp
  qed
  have d: "?rs = [] \<longrightarrow>
        (\<forall>emp. userCollection en (employee e) = Some emp \<longrightarrow>
           resolveApprovers en e = Some (None, defaultApprovers emp, Sequential))"
    using f by (simp add: resolveApprovers_def)
  from f s o h d show ?thesis by blast
qed

lemma threeRules_find: "ApprovalRule_find threeRules 1 500 = Some [ruleHigh, ruleLow]"
proof -
  have "filter (ruleMatches 1 500) [ruleLow, ruleHuge, ruleHigh] = [ruleLow, ruleHigh]"
    by (simp add: ruleMatches_def ruleLow_def ruleHuge_def ruleHigh_def)
  moreover have "ruleKey ruleLow = (0, False, 0)" "ruleKey ruleHigh = (- 5, False, - 100)"
    by (simp_all add: ruleKey_def ruleLow_def ruleHigh_def)
  ultimately show ?thesis
    by (simp add: ApprovalRule_find_def threeRules_def)
qed

theorem rule_resolution_witness:
  "\<not> ruleQueryFails threeRules \<and>
   ruleCollection threeRules = [ruleLow, ruleHuge, ruleHigh] \<and>
   ApprovalRule_find threeRules 1 500 = Some [ruleHigh, ruleLow] \<and>
   precedes ruleHigh ruleLow \<and>
   resolveApprovers threeRules (Expense_create 7 1 500) =
     Some (Some ruleHigh,
           [\<lparr>user = 1, step = 1, isRequired = True\<rparr>, \<lparr>user = 2, step = 2, isRequired = True\<rparr>],
           Sequential)"
proof -
  have 1: "\<not> ruleQueryFails threeRules" by (simp add: threeRules_def)
  have c: "company (Expense_create 7 1 500) = 1"
    "amountInCompanyCurrency (Expense_create 7 1 500) = 500"
    by (simp_all add: Expense_create_def)
  from rule_resolution [OF 1, of "Expense_create 7 1 500"] c threeRules_find
  have "resolveApprovers threeRules (Expense_create 7 1 500) =
          Some (Some ruleHigh, sort_key step (approvers ruleHigh), approvalType ruleHigh) \<and>
        precedes ruleHigh ruleLow"
    by simp
  then show ?thesis
    using 1 threeRules_find by (simp add: ruleHigh_def threeRules_def)
qed

section \<open>The final approval date\<close>

lemma process_date:
  assumes "dateMatchesStatus e"
  shows "dateMatchesStatus (processApprovalWorkflow en now e)"
  using process_cases [of en now e] assms
  by (auto simp: dateMatchesStatus_def checkApproval_fields markApproved_def markInsufficient_def)

lemma determine_date:
  assumes "dateMatchesStatus e"
  shows "dateMatchesStatus (determineApprovalWorkflow en now e)"
  using assms
  by (auto simp: dateMatchesStatus_def determineApprovalWorkflow_def Let_def
      split: option.splits list.splits)

lemma recordDecision_date:
  assumes "dateMatchesStatus e"
  shows "dateMatchesStatus (recordDecision en u action comment now e)"
proof (cases "action = ''approved''")
  case True
  let ?e2 = "e\<lparr>approvalHistory := approvalHistory e @
                   [\<lparr>h_approver = u, h_action = DecApproved,
                     h_comment = jsTrim (commentOr comment []),
                     h_step = approvalStep e, h_timestamp = now\<rparr>],
                 approvedBy := approvedBy e @ [u]\<rparr>"
  from assms have "dateMatchesStatus ?e2" by (simp add: dateMatchesStatus_def)
  then have "dateMatchesStatus (processApprovalWorkflow en now ?e2)" by (rule process_date)
  with True show ?thesis by (simp add: recordDecision_def Let_def)
next
  case False
  then show ?thesis by (simp add: recordDecision_def Let_def dateMatchesStatus_def)
qed

lemma override_date: "dateMatchesStatus (overrideExpense u action comment now e)"
  by (simp add: overrideExpense_def Let_def dateMatchesStatus_def)

lemma post_date:
  assumes a: "allExpenses dateMatchesStatus s"
  shows "allExpenses dateMatchesStatus (snd (expenses_post en s emp c i amt now))"
proof -
  have "dateMatchesStatus (Expense_create emp c amt)"
    by (simp add: Expense_create_def dateMatchesStatus_def)
  then have "dateMatchesStatus (determineApprovalWorkflow en now (Expense_create emp c amt))"
    by (rule determine_date)
  with a show ?thesis by (simp add: expenses_post_def Let_def allExpenses_update)
qed

lemma put_date:
  assumes a: "allExpenses dateMatchesStatus s"
  shows "allExpenses dateMatchesStatus (snd (expenses_put en s u i amt now))"
proof (cases "s i")
  case None
  with a show ?thesis by (simp add: expenses_put_def)
next
  case (Some e)
  with a have "dateMatchesStatus e" by (simp add: allExpenses_lookup)
  then have "dateMatchesStatus (e\<lparr>amountInCompanyCurrency := amt\<rparr>)"
    by (simp add: dateMatchesStatus_def)
  then have "dateMatchesStatus
      (determineApprovalWorkflow en now (e\<lparr>amountInCompanyCurrency := amt\<rparr>))"
    by (rule determine_date)
  with a Some show ?thesis by (simp add: expenses_put_def Let_def allExpenses_update)
qed

lemma decide_date:
  assumes a: "allExpenses dateMatchesStatus s"
  shows "allExpenses dateMatchesStatus (snd (approvals_put en s u i action comment now))"
proof (cases "s i")
  case None
  with a show ?thesis by (simp add: approvals_put_def)
next
  case (Some e)
  with a have "dateMatchesStatus e" by (simp add: allExpenses_lookup)
  then have "dateMatchesStatus (recordDecision en (userId u) action comment now e)"
    by (rule recordDecision_date)
  with a Some show ?thesis
    by (simp add: approvals_put_def Let_def allExpenses_update split: option.splits if_splits)
qed

lemma override_route_date:
  assumes a: "allExpenses dateMatchesStatus s"
  shows "allExpenses dateMatchesStatus (snd (approvals_override s u i action comment now))"
  using a
  by (simp add: approvals_override_def Let_def allExpenses_update override_date
      split: option.splits if_splits)

lemma reachable_with_date:
  "reachable_with E s \<Longrightarrow> allExpenses dateMatchesStatus s"
proof (induction rule: reachable_with.induct)
  case r_empty
  show ?case by (simp add: allExpenses_def)
next
  case (r_post s en i emp c amt now)
  then show ?case by (simp add: post_date)
next
  case (r_put s en u i amt now)
  then show ?case by (simp add: put_date)
next
  case (r_decide s en u i action comment now)
  then show ?case by (simp add: decide_date)
next
  case (r_override s u i action comment now)
  then show ?case by (simp add: override_route_date)
qed

text \<open>
  Claim C7. In every store the routes (create, edit, decision, override) can produce,
  each expense has its final approval date set if and only if its status is approved
  or rejected.
\<close>

theorem final_date_iff_terminal:
  assumes "reachable s" and "s i = Some e"
  shows "(finalApprovalDate e \<noteq> None) = (status e = Approved \<or> status e = Rejected)"
proof -
  from assms(1) have "allExpenses dateMatchesStatus s"
    unfolding reachable_def by (rule reachable_with_date)
  from this assms(2) have "dateMatchesStatus e" by (rule allExpenses_lookup)
  then show ?thesis by (simp add: dateMatchesStatus_def)
qed

lemma post_noRules_8:
  "snd (expenses_post noRules Map.empty 8 1 5 50 3) = [5 \<mapsto> autoApproved]"
  by (simp add: expenses_post_def determineApprovalWorkflow_def resolveApprovers_def
      ApprovalRule_find_def noRules_def staff_def defaultApprovers_empty Expense_create_def
      autoApproved_def Let_def)

theorem final_date_iff_terminal_witness:
  "reachable [5 \<mapsto> autoApproved] \<and> [5::eid \<mapsto> autoApproved] 5 = Some autoApproved \<and>
   status autoApproved = Approved \<and> finalApprovalDate autoApproved = Some 3 \<and>
   (finalApprovalDate autoApproved \<noteq> None) =
     (status autoApproved = Approved \<or> status autoApproved = Rejected)"
proof -
  have "reachable_with (\<lambda>en. True) (snd (expenses_post noRules Map.empty 8 1 5 50 3))"
    by (rule r_post [OF r_empty]) simp_all
  then have "reachable_with (\<lambda>en. True) [5 \<mapsto> autoApproved]"
    by (simp only: post_noRules_8)
  then have 1: "reachable [5 \<mapsto> autoApproved]"
    by (simp add: reachable_def)
  have 2: "[5::eid \<mapsto> autoApproved] 5 = Some autoApproved" by simp
  have 3: "status autoApproved = Approved \<and> finalApprovalDate autoApproved = Some 3"
    by (simp add: autoApproved_def Expense_create_def)
  from final_date_iff_terminal [OF 1 2] 1 2 3 show ?thesis by simp
qed

section \<open>Approvers who decide once\<close>
































section \<open>The parallel policy\<close>

lemma parallel_process:
  assumes "resolveApprovers en e = Some (rule, apprs, Parallel)"
  shows "processApprovalWorkflow en now e =
     (if length (requiredApprovers apprs) \<le> approvedRequiredCount apprs (approvedBy e)
      then markApproved now e
      else case remainingApprovers apprs e of
             a # _ \<Rightarrow> e\<lparr>currentApprover := Some (user a)\<rparr>
           | [] \<Rightarrow> e)"
  by (simp add: processApprovalWorkflow_def assms checkApproval_def)

lemma count_of_distinct:
  assumes "distinct ids" and "distinct (map user apprs)"
  shows "approvedRequiredCount apprs ids =
           length (filter (\<lambda>a. user a \<in> set ids) (requiredApprovers apprs))"
proof -
  let ?R = "requiredApprovers apprs"
  from assms(2) have d: "distinct (map user ?R)"
    by (simp add: requiredApprovers_def distinct_map_filter)
  have 1: "approvedRequiredCount apprs ids = card ({i. i \<in> set (map user ?R)} \<inter> set ids)"
    unfolding approvedRequiredCount_def using assms(1) by (rule distinct_length_filter)
  have 2: "length (filter (\<lambda>x. x \<in> set ids) (map user ?R)) =
             card ({x. x \<in> set ids} \<inter> set (map user ?R))"
    using d by (rule distinct_length_filter)
  have 3: "length (filter (\<lambda>x. x \<in> set ids) (map user ?R)) =
             length (filter (\<lambda>a. user a \<in> set ids) ?R)"
    by (simp add: filter_map comp_def)
  have "{i. i \<in> set (map user ?R)} \<inter> set ids = {x. x \<in> set ids} \<inter> set (map user ?R)"
    by auto
  with 1 2 3 show ?thesis by simp
qed

text \<open>
  Claim C1, as the code has it. When the current approver approves a pending expense
  under a parallel rule, the expense is marked approved if and only if the number of
  entries of \<open>approvedBy\<close> that name a required approver has reached the number of
  required approver entries of the rule; when neither list names anybody twice this
  is the number of required approvers whose id appears in \<open>approvedBy\<close>. Otherwise
  the current approver becomes the first approver of the rule's list, in step order,
  who is in neither \<open>approvedBy\<close> nor \<open>rejectedBy\<close>; and when no such approver
  remains the expense is saved as it is, still pending, with its current approver
  unchanged and without a rejection.
\<close>

theorem parallel_approval:
  assumes "canApprove u" and "validateApproval ''approved'' comment" and "s i = Some e"
    and "currentApprover e = Some (userId u)" and "status e = Pending"
    and "resolveApprovers en e = Some (rule, apprs, Parallel)"
  shows "\<exists>e' e2.
     approvals_put en s u i ''approved'' comment now = (Success e', s(i \<mapsto> e')) \<and>
     e2 = e\<lparr>approvalHistory := approvalHistory e @
               [\<lparr>h_approver = userId u, h_action = DecApproved,
                 h_comment = jsTrim (case comment of None \<Rightarrow> [] | Some c \<Rightarrow> c),
                 h_step = approvalStep e, h_timestamp = now\<rparr>],
             approvedBy := approvedBy e @ [userId u]\<rparr> \<and>
     (status e' = Approved) =
       (length (requiredApprovers apprs) \<le> approvedRequiredCount apprs (approvedBy e2)) \<and>
     (length (requiredApprovers apprs) \<le> approvedRequiredCount apprs (approvedBy e2) \<longrightarrow>
        e' = e2\<lparr>status := Approved, finalApprovalDate := Some now, currentApprover := None\<rparr>) \<and>
     (approvedRequiredCount apprs (approvedBy e2) < length (requiredApprovers apprs) \<longrightarrow>
        (case filter (\<lambda>a. user a \<notin> set (approvedBy e2) \<and> user a \<notin> set (rejectedBy e2)) apprs of
           a # _ \<Rightarrow> e' = e2\<lparr>currentApprover := Some (user a)\<rparr>
         | [] \<Rightarrow> e' = e2)) \<and>
     (distinct (approvedBy e2) \<and> distinct (map user apprs) \<longrightarrow>
        approvedRequiredCount apprs (approvedBy e2) =
          length (filter (\<lambda>a. user a \<in> set (approvedBy e2)) (requiredApprovers apprs)))"
proof -
  let ?e2 = "e\<lparr>approvalHistory := approvalHistory e @
               [\<lparr>h_approver = userId u, h_action = DecApproved,
                 h_comment = jsTrim (case comment of None \<Rightarrow> [] | Some c \<Rightarrow> c),
                 h_step = approvalStep e, h_timestamp = now\<rparr>],
             approvedBy := approvedBy e @ [userId u]\<rparr>"
  let ?e' = "processApprovalWorkflow en now ?e2"
  have r: "resolveApprovers en ?e2 = Some (rule, apprs, Parallel)"
    using assms(6) by (simp add: resolveApprovers_cong [of ?e2 e])
  note p = parallel_process [OF r, of now]
  have st: "status ?e2 = Pending" using assms(5) by simp
  have a: "approvals_put en s u i ''approved'' comment now = (Success ?e', s(i \<mapsto> ?e'))"
    using approvals_put_accepted [where s = s and i = i and en = en and now = now, OF assms(1-5)]
    by (simp add: approval_recorded)
  have b: "(status ?e' = Approved) =
       (length (requiredApprovers apprs) \<le> approvedRequiredCount apprs (approvedBy ?e2))"
    using st by (simp add: p markApproved_def split: list.splits)
  have c: "length (requiredApprovers apprs) \<le> approvedRequiredCount apprs (approvedBy ?e2) \<longrightarrow>
        ?e' = ?e2\<lparr>status := Approved, finalApprovalDate := Some now, currentApprover := None\<rparr>"
    by (simp add: p markApproved_def)
  have d: "approvedRequiredCount apprs (approvedBy ?e2) < length (requiredApprovers apprs) \<longrightarrow>
        (case filter (\<lambda>a. user a \<notin> set (approvedBy ?e2) \<and> user a \<notin> set (rejectedBy ?e2)) apprs of
           a # _ \<Rightarrow> ?e' = ?e2\<lparr>currentApprover := Some (user a)\<rparr>
         | [] \<Rightarrow> ?e' = ?e2)"
    by (simp add: p remainingApprovers_def split: list.splits)
  have f: "distinct (approvedBy ?e2) \<and> distinct (map user apprs) \<longrightarrow>
        approvedRequiredCount apprs (approvedBy ?e2) =
          length (filter (\<lambda>a. user a \<in> set (approvedBy ?e2)) (requiredApprovers apprs))"
    using count_of_distinct by blast
  from a b c d f show ?thesis by blast
qed

lemma resolve_parallel:
  "resolveApprovers (oneRule parallelRule) pendingOfTwo =
     Some (Some parallelRule, twoApprovers, Parallel)"
proof -
  have m: "ruleMatches (company pendingOfTwo) (amountInCompanyCurrency pendingOfTwo) parallelRule"
    by (simp add: ruleMatches_def parallelRule_def pendingOfTwo_fields)
  have "approvers parallelRule = twoApprovers" "approvalType parallelRule = Parallel"
    by (simp_all add: parallelRule_def)
  with resolve_oneRule [OF m] show ?thesis by (simp add: sort_twoApprovers)
qed

theorem parallel_approval_witness:
  "canApprove approverA \<and> validateApproval ''approved'' None \<and>
   currentApprover pendingOfTwo = Some (userId approverA) \<and> status pendingOfTwo = Pending \<and>
   resolveApprovers (oneRule parallelRule) pendingOfTwo =
     Some (Some parallelRule, twoApprovers, Parallel) \<and>
   approvals_put (oneRule parallelRule) [5 \<mapsto> pendingOfTwo] approverA 5 ''approved'' None 4 =
     (Success onceApproved, [5 \<mapsto> onceApproved]) \<and>
   status onceApproved = Pending \<and> currentApprover onceApproved = Some 2"
proof -
  have 1: "canApprove approverA" by (rule canApprove_examples)
  have 2: "validateApproval ''approved'' None" by (rule validate_examples)
  have 3: "[5::eid \<mapsto> pendingOfTwo] 5 = Some pendingOfTwo" by simp
  have 4: "currentApprover pendingOfTwo = Some (userId approverA)"
    by (simp add: pendingOfTwo_fields approverA_def)
  have 5: "status pendingOfTwo = Pending" by (rule pendingOfTwo_fields)
  note 6 = resolve_parallel
  from parallel_approval
         [where s = "[5::eid \<mapsto> pendingOfTwo]" and i = 5 and now = 4, OF 1 2 3 4 5 6]
  obtain e' e2 where
    r: "approvals_put (oneRule parallelRule) [5 \<mapsto> pendingOfTwo] approverA 5 ''approved'' None 4
          = (Success e', [5 \<mapsto> pendingOfTwo, 5 \<mapsto> e'])"
    and e2: "e2 = pendingOfTwo\<lparr>approvalHistory := approvalHistory pendingOfTwo @
               [\<lparr>h_approver = userId approverA, h_action = DecApproved,
                 h_comment = jsTrim (case None of None \<Rightarrow> [] | Some c \<Rightarrow> c),
                 h_step = approvalStep pendingOfTwo, h_timestamp = 4\<rparr>],
             approvedBy := approvedBy pendingOfTwo @ [userId approverA]\<rparr>"
    and adv: "approvedRequiredCount twoApprovers (approvedBy e2)
                < length (requiredApprovers twoApprovers) \<longrightarrow>
        (case filter (\<lambda>a. user a \<notin> set (approvedBy e2) \<and> user a \<notin> set (rejectedBy e2))
                twoApprovers of
           a # _ \<Rightarrow> e' = e2\<lparr>currentApprover := Some (user a)\<rparr>
         | [] \<Rightarrow> e' = e2)"
    by blast
  from e2 have l: "approvedBy e2 = [1]" "rejectedBy e2 = []"
    by (simp_all add: pendingOfTwo_fields approverA_def)
  have "approvedRequiredCount twoApprovers [1] < length (requiredApprovers twoApprovers)"
    by (simp add: approvedRequiredCount_def requiredApprovers_def twoApprovers_def)
  with adv l have "e' = e2\<lparr>currentApprover := Some 2\<rparr>"
    by (simp add: twoApprovers_def)
  with e2 have "e' = onceApproved"
    by (simp add: onceApproved_def pendingOfTwo_fields approverA_def jsTrim_Nil)
  with r 1 2 4 5 6 show ?thesis by (simp add: onceApproved_fields)
qed

text \<open>
  The claim as stated fails. Under a parallel rule that lists approver 1 at two steps,
  both required, the approval of approver 1 leaves the freshly initialised expense
  pending with approver 1 still current: the code counts one approval against two
  required entries, no undecided approver remains, and no rejection is recorded. The
  claim has the expense approved (the id of each required approver appears in
  \<open>approvedBy\<close>) or else rejected for insufficient approvals.
\<close>

theorem parallel_approval_counterexample:
  "determineApprovalWorkflow (oneRule twiceRule) 3 (Expense_create 7 1 50) = pendingOfTwo \<and>
   resolveApprovers (oneRule twiceRule) pendingOfTwo =
     Some (Some twiceRule, approvers twiceRule, Parallel) \<and>
   approvals_put (oneRule twiceRule) [5 \<mapsto> pendingOfTwo] approverA 5 ''approved'' None 4 =
     (Success stuckPending, [5 \<mapsto> stuckPending]) \<and>
   status stuckPending = Pending \<and> currentApprover stuckPending = Some 1 \<and>
   approvedBy stuckPending = [1] \<and> rejectionReason stuckPending = None \<and>
   remainingApprovers (approvers twiceRule) stuckPending = [] \<and>
   approvedRequiredCount (approvers twiceRule) (approvedBy stuckPending) = 1 \<and>
   length (requiredApprovers (approvers twiceRule)) = 2 \<and>
   set (map user (requiredApprovers (approvers twiceRule))) \<subseteq> set (approvedBy stuckPending)"
proof -
  have s: "sort_key step (approvers twiceRule) = approvers twiceRule"
    by (simp add: twiceRule_def)
  have t: "approvalType twiceRule = Parallel" by (simp add: twiceRule_def)
  have r: "resolveApprovers (oneRule twiceRule) e =
             Some (Some twiceRule, approvers twiceRule, Parallel)"
    if "company e = 1" and "amountInCompanyCurrency e = 50" for e
  proof -
    from that have "ruleMatches (company e) (amountInCompanyCurrency e) twiceRule"
      by (simp add: ruleMatches_def twiceRule_def)
    from resolve_oneRule [OF this] show ?thesis by (simp add: s t)
  qed
  have r0: "resolveApprovers (oneRule twiceRule) (Expense_create 7 1 50) =
             Some (Some twiceRule, approvers twiceRule, Parallel)"
    by (rule r) (simp_all add: Expense_create_def)
  have 1: "determineApprovalWorkflow (oneRule twiceRule) 3 (Expense_create 7 1 50) = pendingOfTwo"
    unfolding determineApprovalWorkflow_def r0
    by (simp add: Let_def twiceRule_def pendingOfTwo_def Expense_create_def)
  have 2: "resolveApprovers (oneRule twiceRule) pendingOfTwo =
             Some (Some twiceRule, approvers twiceRule, Parallel)"
    by (rule r) (simp_all add: pendingOfTwo_fields)
  have f: "status stuckPending = Pending" "currentApprover stuckPending = Some 1"
    "approvedBy stuckPending = [1]" "rejectedBy stuckPending = []"
    "rejectionReason stuckPending = None" "company stuckPending = 1"
    "amountInCompanyCurrency stuckPending = 50"
    by (simp_all add: stuckPending_def pendingOfTwo_fields)
  have c: "approvedRequiredCount (approvers twiceRule) [1] = 1"
    "length (requiredApprovers (approvers twiceRule)) = 2"
    "remainingApprovers (approvers twiceRule) stuckPending = []"
    "set (map user (requiredApprovers (approvers twiceRule))) \<subseteq> {1}"
    by (simp_all add: approvedRequiredCount_def requiredApprovers_def remainingApprovers_def
        twiceRule_def f)
  have "resolveApprovers (oneRule twiceRule) stuckPending =
             Some (Some twiceRule, approvers twiceRule, Parallel)"
    by (rule r) (simp_all add: f)
  from parallel_process [OF this, of 4]
  have p: "processApprovalWorkflow (oneRule twiceRule) 4 stuckPending = stuckPending"
    by (simp add: approvedRequiredCount_def requiredApprovers_def remainingApprovers_def
        twiceRule_def f)
  have "recordDecision (oneRule twiceRule) (userId approverA) ''approved'' None 4 pendingOfTwo =
          stuckPending"
    unfolding approval_recorded
    using p by (simp add: stuckPending_def pendingOfTwo_fields approverA_def jsTrim_Nil)
  moreover have "currentApprover pendingOfTwo = Some (userId approverA)"
    by (simp add: pendingOfTwo_fields approverA_def)
  ultimately have 3: "approvals_put (oneRule twiceRule) [5 \<mapsto> pendingOfTwo] approverA 5
      ''approved'' None 4 = (Success stuckPending, [5 \<mapsto> stuckPending])"
    by (simp add: approvals_put_accepted [where e = pendingOfTwo] canApprove_examples
        validate_examples pendingOfTwo_fields)
  from 1 2 3 f c show ?thesis by simp
qed

section \<open>The percentage policy\<close>

lemma bitLength_0: "bitLength 0 = 0"
  by (simp add: bitLength.simps)

lemma bitLength_double: "0 < n \<Longrightarrow> bitLength (2 * n) = Suc (bitLength n)"
  by (subst bitLength.simps) simp

lemma bitLength_1: "bitLength (Suc 0) = Suc 0"
  by (subst bitLength.simps) (simp add: bitLength_0)

lemma bitLength_2: "bitLength 2 = 2"
  using bitLength_double [of "Suc 0"] by (simp add: bitLength_1)

lemma bitLength_pow2_mult: "0 < m \<Longrightarrow> bitLength (2 ^ k * m) = k + bitLength m"
  by (induction k) (simp_all add: bitLength_double mult.assoc)

lemma bitLength_25: "bitLength 25 = 5"
proof -
  have "bitLength 25 = Suc (bitLength 12)" by (subst bitLength.simps) simp
  also have "bitLength 12 = Suc (bitLength 6)" by (subst bitLength.simps) simp
  also have "bitLength 6 = Suc (bitLength 3)" by (subst bitLength.simps) simp
  also have "bitLength 3 = Suc (bitLength (Suc 0))" by (subst bitLength.simps) simp
  finally show ?thesis by (simp add: bitLength_1)
qed

lemma roundHalfEven_int: "roundHalfEven (of_int z) = z"
  by (simp add: roundHalfEven_def)

lemma roundFrac_exact:
  assumes "bitLength n = bn" and "bitLength t = bt"
    and "e = (if pow2 (int bn - int bt) \<le> of_nat n / of_nat t
              then int bn - int bt else int bn - int bt - 1)"
    and "(of_nat n / of_nat t) / pow2 (e - 52) = of_int m"
  shows "roundFrac n t = (m, e - 52)"
  unfolding roundFrac_def Let_def assms(1,2) assms(3) [symmetric] assms(4) roundHalfEven_int
  by (rule refl)

lemma roundFrac_1_2: "roundFrac (Suc 0) 2 = (2 ^ 52, - 53)"
proof -
  have "roundFrac (Suc 0) 2 = (2 ^ 52, (- 1) - 52)"
  proof (rule roundFrac_exact [OF bitLength_1 bitLength_2])
    show "(- 1 :: int) = (if pow2 (int (Suc 0) - int 2) \<le> of_nat (Suc 0) / of_nat 2
              then int (Suc 0) - int 2 else int (Suc 0) - int 2 - 1)"
      by (simp add: pow2_def)
    show "(of_nat (Suc 0) / of_nat 2 :: rat) / pow2 (- 1 - 52) = of_int (2 ^ 52)"
      by (simp add: pow2_def)
  qed
  then show ?thesis by simp
qed

lemma roundFrac_50: "roundFrac (2 ^ 52 * 100) (2 ^ 53) = (25 * 2 ^ 48, - 47)"
proof -
  have "(2::nat) ^ 52 * 100 = 2 ^ 54 * 25" by simp
  then have b1: "bitLength (2 ^ 52 * 100) = 59"
    using bitLength_pow2_mult [of 25 54] by (simp add: bitLength_25)
  have b2: "bitLength (2 ^ 53) = 54"
    using bitLength_pow2_mult [of "Suc 0" 53] by (simp add: bitLength_1)
  have x: "(of_nat (2 ^ 52 * 100) :: rat) / of_nat (2 ^ 53) = 50" by simp
  have "roundFrac (2 ^ 52 * 100) (2 ^ 53) = (25 * 2 ^ 48, 5 - 52)"
  proof (rule roundFrac_exact [OF b1 b2])
    show "(5 :: int) = (if pow2 (int 59 - int 54) \<le> of_nat (2 ^ 52 * 100) / of_nat (2 ^ 53)
              then int 59 - int 54 else int 59 - int 54 - 1)"
      unfolding x by (simp add: pow2_def)
    show "(of_nat (2 ^ 52 * 100) / of_nat (2 ^ 53) :: rat) / pow2 (5 - 52) = of_int (25 * 2 ^ 48)"
      unfolding x by (simp add: pow2_def)
  qed
  then show ?thesis by simp
qed

text \<open>One approval of two approvers is 50 percent, also in doubles.\<close>

lemma jsPercentage_1_2: "jsPercentage (Suc 0) 2 = 50"
proof -
  have "nat (2 ^ 52) * 100 * (if (0::int) \<le> - 53 then 2 ^ nat (- 53) else 1) = 2 ^ 52 * 100"
    by simp
  moreover have "(if (0::int) \<le> - 53 then 1 else 2 ^ nat (- (- 53))) = (2::nat) ^ 53"
    by simp
  moreover have "of_int (25 * 2 ^ 48) * pow2 (- 47) = (50::rat)"
    by (simp add: pow2_def)
  ultimately show ?thesis
    by (simp only: jsPercentage_def roundFrac_1_2 roundFrac_50 prod.case)
qed

lemma percentageReached_1_2:
  "\<not> percentageReached (Suc 0) 2 100" "percentageReached (Suc 0) 2 0"
  by (simp_all add: percentageReached_def jsPercentage_1_2)

lemma bitLength_bounds:
  assumes "2 ^ k \<le> n" and "n < 2 ^ Suc k"
  shows "bitLength n = Suc k"
  using assms
proof (induction k arbitrary: n)
  case 0
  then have "n = Suc 0" by simp
  then show ?case by (simp add: bitLength_1)
next
  case (Suc k)
  from Suc.prems have "2 ^ k \<le> n div 2" "n div 2 < 2 ^ Suc k" by auto
  then have "bitLength (n div 2) = Suc k" by (rule Suc.IH)
  moreover from Suc.prems have "n \<noteq> 0" by auto
  ultimately show ?case by (subst bitLength.simps) simp
qed

lemma roundHalfEven_down:
  assumes "of_int m \<le> y" and "y < of_int m + 1 / 2"
  shows "roundHalfEven y = m"
proof -
  from assms have f: "\<lfloor>y\<rfloor> = m" by (simp add: floor_unique)
  from assms(2) have "y - of_int m < 1 / 2" by simp
  then show ?thesis unfolding roundHalfEven_def Let_def f by simp
qed

lemma roundFrac_down:
  assumes "bitLength n = bn" and "bitLength t = bt"
    and "e = (if pow2 (int bn - int bt) \<le> of_nat n / of_nat t
              then int bn - int bt else int bn - int bt - 1)"
    and "of_int m \<le> (of_nat n / of_nat t) / pow2 (e - 52)"
    and "(of_nat n / of_nat t) / pow2 (e - 52) < of_int m + 1 / 2"
  shows "roundFrac n t = (m, e - 52)"
  unfolding roundFrac_def Let_def assms(1,2) assms(3) [symmetric]
    roundHalfEven_down [OF assms(4,5)]
  by (rule refl)

lemma roundFrac_29_50: "roundFrac 29 50 = (5224175567749775, - 53)"
proof -
  have b1: "bitLength 29 = Suc 4" by (rule bitLength_bounds) simp_all
  have b2: "bitLength 50 = Suc 5" by (rule bitLength_bounds) simp_all
  have "roundFrac 29 50 = (5224175567749775, (- 1) - 52)"
  proof (rule roundFrac_down [OF b1 b2])
    show "(- 1 :: int) = (if pow2 (int (Suc 4) - int (Suc 5)) \<le> of_nat 29 / of_nat 50
              then int (Suc 4) - int (Suc 5) else int (Suc 4) - int (Suc 5) - 1)"
      by (simp add: pow2_def)
    show "(of_int 5224175567749775 :: rat) \<le> (of_nat 29 / of_nat 50) / pow2 (- 1 - 52)"
      by (simp add: pow2_def)
    show "(of_nat 29 / of_nat 50 :: rat) / pow2 (- 1 - 52) < of_int 5224175567749775 + 1 / 2"
      by (simp add: pow2_def)
  qed
  then show ?thesis by simp
qed

lemma roundFrac_58:
  "roundFrac (5224175567749775 * 100) (2 ^ 53) = (8162774324609023, - 47)"
proof -
  have b1: "bitLength (5224175567749775 * 100) = Suc 58" by (rule bitLength_bounds) simp_all
  have b2: "bitLength (2 ^ 53) = Suc 53" by (rule bitLength_bounds) simp_all
  have "roundFrac (5224175567749775 * 100) (2 ^ 53) = (8162774324609023, 5 - 52)"
  proof (rule roundFrac_down [OF b1 b2])
    show "(5 :: int) = (if pow2 (int (Suc 58) - int (Suc 53))
                \<le> of_nat (5224175567749775 * 100) / of_nat (2 ^ 53)
              then int (Suc 58) - int (Suc 53) else int (Suc 58) - int (Suc 53) - 1)"
      by (simp add: pow2_def)
    show "(of_int 8162774324609023 :: rat)
            \<le> (of_nat (5224175567749775 * 100) / of_nat (2 ^ 53)) / pow2 (5 - 52)"
      by (simp add: pow2_def)
    show "(of_nat (5224175567749775 * 100) / of_nat (2 ^ 53) :: rat) / pow2 (5 - 52)
            < of_int 8162774324609023 + 1 / 2"
      by (simp add: pow2_def)
  qed
  then show ?thesis by simp
qed

lemma jsPercentage_29_50: "jsPercentage 29 50 = 8162774324609023 / 2 ^ 47"
proof -
  have "nat 5224175567749775 * 100 * (if (0::int) \<le> - 53 then 2 ^ nat (- 53) else 1) =
          5224175567749775 * 100"
    by simp
  moreover have "(if (0::int) \<le> - 53 then 1 else 2 ^ nat (- (- 53))) = (2::nat) ^ 53"
    by simp
  moreover have "of_int 8162774324609023 * pow2 (- 47) = (8162774324609023 / 2 ^ 47 :: rat)"
    by (simp add: pow2_def)
  ultimately show ?thesis
    by (simp only: jsPercentage_def roundFrac_29_50 roundFrac_58 prod.case)
qed

text \<open>
  Rounding shows at 29 approvals of 50: the exact percentage is 58, the code computes
  \<^verbatim>\<open>57.99999999999999\<close>, and a threshold of 58 is not reached.
\<close>

lemma percentage_29_of_50: "\<not> percentageReached 29 50 58" "(29 / 50 :: rat) * 100 = 58"
  by (simp_all add: percentageReached_def jsPercentage_29_50)

lemma percentage_process:
  assumes "resolveApprovers en e = Some (Some r, apprs, Percentage)"
  shows "processApprovalWorkflow en now e =
     (if percentageReached (length (approvedBy e)) (totalApprovers e)
           (orDefault (percentageRequired r) 100)
      then markApproved now e
      else case remainingApprovers apprs e of
             a # _ \<Rightarrow> e\<lparr>currentApprover := Some (user a)\<rparr>
           | [] \<Rightarrow> markInsufficient now e)"
  by (simp add: processApprovalWorkflow_def assms checkApproval_def settingPercentage_def)

text \<open>
  The percentage policy as the code has it. The threshold is the rule's
  \<open>percentageRequired\<close>, and 100 when that is missing or zero. The approval of the
  current approver makes the expense approved if and only if the percentage of
  approvals reaches the threshold; otherwise the first undecided approver becomes
  current, and when none remains the expense is rejected for insufficient approvals.
\<close>

lemma percentage_policy:
  assumes "canApprove u" and "validateApproval ''approved'' comment" and "s i = Some e"
    and "currentApprover e = Some (userId u)" and "status e = Pending"
    and "resolveApprovers en e = Some (Some r, apprs, Percentage)"
  shows "\<exists>e' e2 threshold.
     approvals_put en s u i ''approved'' comment now = (Success e', s(i \<mapsto> e')) \<and>
     e2 = e\<lparr>approvalHistory := approvalHistory e @
               [\<lparr>h_approver = userId u, h_action = DecApproved,
                 h_comment = jsTrim (case comment of None \<Rightarrow> [] | Some c \<Rightarrow> c),
                 h_step = approvalStep e, h_timestamp = now\<rparr>],
             approvedBy := approvedBy e @ [userId u]\<rparr> \<and>
     threshold = (case percentageRequired r of
                    None \<Rightarrow> 100 | Some p \<Rightarrow> if p = 0 then 100 else p) \<and>
     (status e' = Approved) =
       percentageReached (length (approvedBy e2)) (totalApprovers e2) threshold \<and>
     (percentageReached (length (approvedBy e2)) (totalApprovers e2) threshold \<longrightarrow>
        e' = e2\<lparr>status := Approved, finalApprovalDate := Some now, currentApprover := None\<rparr>) \<and>
     (\<not> percentageReached (length (approvedBy e2)) (totalApprovers e2) threshold \<longrightarrow>
        (case filter (\<lambda>a. user a \<notin> set (approvedBy e2) \<and> user a \<notin> set (rejectedBy e2)) apprs of
           a # _ \<Rightarrow> e' = e2\<lparr>currentApprover := Some (user a)\<rparr>
         | [] \<Rightarrow> e' = e2\<lparr>status := Rejected,
                           rejectionReason := Some ''Insufficient approvals'',
                           finalApprovalDate := Some now, currentApprover := None\<rparr>))"
proof -
  let ?e2 = "e\<lparr>approvalHistory := approvalHistory e @
               [\<lparr>h_approver = userId u, h_action = DecApproved,
                 h_comment = jsTrim (case comment of None \<Rightarrow> [] | Some c \<Rightarrow> c),
                 h_step = approvalStep e, h_timestamp = now\<rparr>],
             approvedBy := approvedBy e @ [userId u]\<rparr>"
  let ?e' = "processApprovalWorkflow en now ?e2"
  let ?th = "case percentageRequired r of None \<Rightarrow> 100 | Some p \<Rightarrow> if p = 0 then 100 else p"
  have th: "orDefault (percentageRequired r) 100 = ?th" by (simp add: orDefault_def)
  have r: "resolveApprovers en ?e2 = Some (Some r, apprs, Percentage)"
    using assms(6) by (simp add: resolveApprovers_cong [of ?e2 e])
  note p = percentage_process [OF r, of now, unfolded th]
  have st: "status ?e2 = Pending" using assms(5) by simp
  have a: "approvals_put en s u i ''approved'' comment now = (Success ?e', s(i \<mapsto> ?e'))"
    using approvals_put_accepted [where s = s and i = i and en = en and now = now, OF assms(1-5)]
    by (simp add: approval_recorded)
  have b: "(status ?e' = Approved) =
       percentageReached (length (approvedBy ?e2)) (totalApprovers ?e2) ?th"
    using st by (simp add: p markApproved_def markInsufficient_def split: list.splits)
  have c: "percentageReached (length (approvedBy ?e2)) (totalApprovers ?e2) ?th \<longrightarrow>
        ?e' = ?e2\<lparr>status := Approved, finalApprovalDate := Some now, currentApprover := None\<rparr>"
    by (simp add: p markApproved_def)
  have d: "\<not> percentageReached (length (approvedBy ?e2)) (totalApprovers ?e2) ?th \<longrightarrow>
        (case filter (\<lambda>a. user a \<notin> set (approvedBy ?e2) \<and> user a \<notin> set (rejectedBy ?e2)) apprs of
           a # _ \<Rightarrow> ?e' = ?e2\<lparr>currentApprover := Some (user a)\<rparr>
         | [] \<Rightarrow> ?e' = ?e2\<lparr>status := Rejected,
                           rejectionReason := Some ''Insufficient approvals'',
                           finalApprovalDate := Some now, currentApprover := None\<rparr>)"
    by (simp add: p remainingApprovers_def markInsufficient_def split: list.splits)
  from a b c d show ?thesis by blast
qed

text \<open>
  Claim C5 at a rule that requires zero percent. Initialisation under the rule gives
  the pending expense with approver 1 current and two approvers in total. When
  approver 1 approves, one of two approvers has approved, which is at least the zero
  percent the rule requires; the code compares against 100 instead, leaves the expense
  pending and makes approver 2 current.
\<close>

theorem zero_percent_not_approved:
  "percentageRequired zeroPercentRule = Some 0 \<and>
   determineApprovalWorkflow (oneRule zeroPercentRule) 3 (Expense_create 7 1 50) = pendingOfTwo \<and>
   approvals_put (oneRule zeroPercentRule) [5 \<mapsto> pendingOfTwo] approverA 5 ''approved'' None 4 =
     (Success onceApproved, [5 \<mapsto> onceApproved]) \<and>
   status onceApproved = Pending \<and> currentApprover onceApproved = Some 2 \<and>
   percentageReached (length (approvedBy onceApproved)) (totalApprovers onceApproved) 0"
proof -
  have z: "percentageRequired zeroPercentRule = Some 0" by (simp add: zeroPercentRule_def)
  have r: "resolveApprovers (oneRule zeroPercentRule) e =
             Some (Some zeroPercentRule, twoApprovers, Percentage)"
    if "company e = 1" and "amountInCompanyCurrency e = 50" for e
  proof -
    from that have "ruleMatches (company e) (amountInCompanyCurrency e) zeroPercentRule"
      by (simp add: ruleMatches_def zeroPercentRule_def)
    moreover have "approvers zeroPercentRule = twoApprovers"
      "approvalType zeroPercentRule = Percentage"
      by (simp_all add: zeroPercentRule_def)
    ultimately show ?thesis using resolve_oneRule [of e zeroPercentRule]
      by (simp add: sort_twoApprovers)
  qed
  have "resolveApprovers (oneRule zeroPercentRule) (Expense_create 7 1 50) =
          Some (Some zeroPercentRule, twoApprovers, Percentage)"
    by (rule r) (simp_all add: Expense_create_def)
  then have 1: "determineApprovalWorkflow (oneRule zeroPercentRule) 3 (Expense_create 7 1 50) =
          pendingOfTwo"
    by (rule determine_two)
  let ?e2 = "pendingOfTwo\<lparr>approvalHistory := approvalHistory pendingOfTwo @
               [\<lparr>h_approver = userId approverA, h_action = DecApproved,
                 h_comment = jsTrim (case None of None \<Rightarrow> [] | Some c \<Rightarrow> c),
                 h_step = approvalStep pendingOfTwo, h_timestamp = 4\<rparr>],
             approvedBy := approvedBy pendingOfTwo @ [userId approverA]\<rparr>"
  have "resolveApprovers (oneRule zeroPercentRule) ?e2 =
          Some (Some zeroPercentRule, twoApprovers, Percentage)"
    by (rule r) (simp_all add: pendingOfTwo_fields)
  from percentage_process [OF this, of 4]
  have "processApprovalWorkflow (oneRule zeroPercentRule) 4 ?e2 = onceApproved"
    by (simp add: z orDefault_def percentageReached_1_2 pendingOfTwo_fields approverA_def
        remainingApprovers_def twoApprovers_def onceApproved_def jsTrim_Nil)
  then have "recordDecision (oneRule zeroPercentRule) (userId approverA) ''approved'' None 4
               pendingOfTwo = onceApproved"
    by (simp only: approval_recorded)
  moreover have "currentApprover pendingOfTwo = Some (userId approverA)"
    by (simp add: pendingOfTwo_fields approverA_def)
  ultimately have 2: "approvals_put (oneRule zeroPercentRule) [5 \<mapsto> pendingOfTwo] approverA 5
      ''approved'' None 4 = (Success onceApproved, [5 \<mapsto> onceApproved])"
    by (simp add: approvals_put_accepted [where e = pendingOfTwo] canApprove_examples
        validate_examples pendingOfTwo_fields)
  have 3: "percentageReached (length (approvedBy onceApproved)) (totalApprovers onceApproved) 0"
    by (simp add: percentageReached_1_2 onceApproved_def pendingOfTwo_fields)
  from z 1 2 3 show ?thesis by (simp add: onceApproved_fields)
qed

end
